theory Spec2Isabelle
  imports Complex_Main "HOL-Library.Multiset"
begin

section \<open>Numbers and constants\<close>

text \<open>
  The calculation module works on JavaScript numbers. The model has two levels.

  In the exact level a number is a rational and the arithmetic (\<open>+\<close>, \<open>-\<close>, \<open>*\<close>,
  \<open>/\<close>, comparison, \<open>Math.min\<close>, \<open>Math.max\<close>, \<open>Math.floor\<close>, \<open>Math.round\<close>) is
  taken without rounding. It carries \<open>bucketModels\<close>, \<open>groupVariants\<close>, the offload
  functions and the comparison of the two context estimators, whose properties are about
  branches, order and membership.

  In the binary64 level (section \<open>Binary64 arithmetic\<close>) every operation rounds to the
  nearest double, as the language does. It carries \<open>calcMultiGpuResources\<close> and the
  functions \<open>calcMaxContext_f64\<close> and \<open>calcTokPerSec_f64\<close>, whose properties state
  computed values; an argument of these functions is a finite double, given as the
  rational it denotes.

  A value that may be \<open>null\<close> (or absent) is an \<open>option\<close>, with \<open>None\<close> for \<open>null\<close>.
  \<open>Math.round\<close> rounds halves towards plus infinity, which is \<open>round\<close> of HOL
  (\<open>round x = \<lfloor>x + 1/2\<rfloor>\<close>).
\<close>

definition Math_floor :: "rat \<Rightarrow> rat" where
  "Math_floor x = of_int \<lfloor>x\<rfloor>"

definition Math_round :: "rat \<Rightarrow> rat" where
  "Math_round x = of_int (round x)"

definition INFERENCE_OVERHEAD_GB :: rat where
  "INFERENCE_OVERHEAD_GB = 1.0"

definition TIGHT_FIT_CONTEXT_K :: rat where
  "TIGHT_FIT_CONTEXT_K = 4"

definition MAX_OFFLOAD_RATIO :: rat where
  "MAX_OFFLOAD_RATIO = 0.5"

section \<open>Binary64 arithmetic\<close>

text \<open>
  A JavaScript number is an IEEE 754 binary64 value: a finite double, which is the rational
  it denotes (\<open>Fin\<close>), an infinity or \<open>NaN\<close>. A zero has no sign here: \<open>-0\<close> and
  \<open>+0\<close> compare equal, and the sign of a zero shows only in a division by it, where the
  divisor is taken as \<open>+0\<close> (in the functions below a zero divisor can only be the sum
  \<open>weight_gb + 1.0\<close>, which is \<open>+0\<close>).

  \<open>fl\<close> rounds a rational to the nearest double, ties to the even significand:
  \<open>ilog2 a\<close> is the binary exponent of \<open>a > 0\<close>, \<open>quantum a\<close> the spacing of the
  doubles around \<open>a\<close> (\<open>2 ^ (e - 52)\<close>, with \<open>e\<close> at least \<open>-1022\<close> for the
  subnormal range), and a result of magnitude \<open>2 ^ 1024\<close> or more is an infinity. A
  decimal literal of the source denotes \<open>fl\<close> of its value.
\<close>

datatype f64 = Fin rat | PInf | NInf | NaN

function log2i :: "int \<Rightarrow> int" where
  "log2i n = (if n < 2 then 0 else 1 + log2i (n div 2))"
  by pat_completeness auto
termination
  by (relation "measure nat") auto

declare log2i.simps [simp del]

definition pow2 :: "int \<Rightarrow> rat" where
  "pow2 e = (if e \<ge> 0 then 2 ^ nat e else 1 / 2 ^ nat (- e))"

text \<open>
  The binary exponent \<open>\<lfloor>log\<^sub>2 a\<rfloor>\<close> of \<open>a > 0\<close>: for \<open>a \<ge> 1\<close> that of the integer part;
  for \<open>a < 1\<close> the negated \<open>\<lceil>log\<^sub>2 (1 / a)\<rceil>\<close>, which is \<open>log2i (\<lceil>1 / a\<rceil> - 1) + 1\<close>.
\<close>

definition ilog2 :: "rat \<Rightarrow> int" where
  "ilog2 a = (if a \<ge> 1 then log2i \<lfloor>a\<rfloor> else - (log2i (\<lceil>1 / a\<rceil> - 1) + 1))"

definition round_half_even :: "rat \<Rightarrow> int" where
  "round_half_even r =
     (let f = \<lfloor>r\<rfloor>; d = r - of_int f
      in if d < 1 / 2 then f
         else if d > 1 / 2 then f + 1
         else if even f then f else f + 1)"

definition quantum :: "rat \<Rightarrow> rat" where
  "quantum a = pow2 (max (ilog2 a) (- 1022) - 52)"

definition round_to :: "rat \<Rightarrow> rat \<Rightarrow> rat" where
  "round_to q a = of_int (round_half_even (a / q)) * q"

definition fl_pos :: "rat \<Rightarrow> rat" where
  "fl_pos a = round_to (quantum a) a"

definition overflow :: "bool \<Rightarrow> rat \<Rightarrow> f64" where
  "overflow pos y =
     (if y \<ge> pow2 1024 then (if pos then PInf else NInf)
      else Fin (if pos then y else - y))"

definition fl :: "rat \<Rightarrow> f64" where
  "fl x = (if x = 0 then Fin 0 else overflow (x > 0) (fl_pos \<bar>x\<bar>))"

text \<open>
  The operations of the language on doubles: the exact result of two finite operands is
  rounded by \<open>fl\<close>; the cases with an infinity or \<open>NaN\<close> follow IEEE 754.
  \<open>Math.floor\<close> and \<open>Math.round\<close> of a finite double are integers that are doubles, so
  they are exact; \<open>Math.round\<close> rounds halves towards plus infinity. \<open>Math.min\<close> is
  \<open>NaN\<close> when an argument is, and a comparison with \<open>NaN\<close> is false.
\<close>

fun f_add :: "f64 \<Rightarrow> f64 \<Rightarrow> f64" where
  "f_add (Fin a) (Fin b) = fl (a + b)"
| "f_add NaN y = NaN"
| "f_add x NaN = NaN"
| "f_add PInf NInf = NaN"
| "f_add NInf PInf = NaN"
| "f_add PInf y = PInf"
| "f_add NInf y = NInf"
| "f_add (Fin a) y = y"

fun f_sub :: "f64 \<Rightarrow> f64 \<Rightarrow> f64" where
  "f_sub (Fin a) (Fin b) = fl (a - b)"
| "f_sub NaN y = NaN"
| "f_sub x NaN = NaN"
| "f_sub PInf PInf = NaN"
| "f_sub NInf NInf = NaN"
| "f_sub PInf y = PInf"
| "f_sub NInf y = NInf"
| "f_sub (Fin a) PInf = NInf"
| "f_sub (Fin a) NInf = PInf"

fun f_mul :: "f64 \<Rightarrow> f64 \<Rightarrow> f64" where
  "f_mul (Fin a) (Fin b) = fl (a * b)"
| "f_mul NaN y = NaN"
| "f_mul x NaN = NaN"
| "f_mul PInf (Fin b) = (if b = 0 then NaN else if b > 0 then PInf else NInf)"
| "f_mul NInf (Fin b) = (if b = 0 then NaN else if b > 0 then NInf else PInf)"
| "f_mul (Fin a) PInf = (if a = 0 then NaN else if a > 0 then PInf else NInf)"
| "f_mul (Fin a) NInf = (if a = 0 then NaN else if a > 0 then NInf else PInf)"
| "f_mul PInf PInf = PInf"
| "f_mul PInf NInf = NInf"
| "f_mul NInf PInf = NInf"
| "f_mul NInf NInf = PInf"

fun f_div :: "f64 \<Rightarrow> f64 \<Rightarrow> f64" where
  "f_div (Fin a) (Fin b) =
     (if b = 0 then (if a = 0 then NaN else if a > 0 then PInf else NInf)
      else fl (a / b))"
| "f_div NaN y = NaN"
| "f_div x NaN = NaN"
| "f_div (Fin a) y = Fin 0"
| "f_div PInf (Fin b) = (if b \<ge> 0 then PInf else NInf)"
| "f_div NInf (Fin b) = (if b \<ge> 0 then NInf else PInf)"
| "f_div x y = NaN"

fun f_le :: "f64 \<Rightarrow> f64 \<Rightarrow> bool" where
  "f_le (Fin a) (Fin b) = (a \<le> b)"
| "f_le NaN y = False"
| "f_le x NaN = False"
| "f_le NInf y = True"
| "f_le x PInf = True"
| "f_le x y = False"

fun Math_min_f :: "f64 \<Rightarrow> f64 \<Rightarrow> f64" where
  "Math_min_f NaN y = NaN"
| "Math_min_f x NaN = NaN"
| "Math_min_f x y = (if f_le x y then x else y)"

fun Math_floor_f :: "f64 \<Rightarrow> f64" where
  "Math_floor_f (Fin a) = Fin (of_int \<lfloor>a\<rfloor>)"
| "Math_floor_f x = x"

fun Math_round_f :: "f64 \<Rightarrow> f64" where
  "Math_round_f (Fin a) = Fin (of_int (round a))"
| "Math_round_f x = x"

section \<open>Data model\<close>

text \<open>
  A model object of the catalog. The fields \<open>id\<close> and \<open>notes\<close> of the source are
  \<open>id_m\<close> and \<open>notes_m\<close> here; \<open>layers\<close>, \<open>swe_bench_score\<close> and
  \<open>features\<close> may be absent. Records declared later reuse some field names
  (\<open>name\<close>, \<open>tier\<close>, \<open>maxCtxK\<close>, ...): a field is then written with its record,
  as in \<open>model.name\<close> and \<open>group.name\<close>.
\<close>

record model =
  id_m :: string
  name :: string
  params_b :: rat
  quantization :: string
  weight_gb :: rat
  kv_per_1k_gb :: rat
  max_context_k :: rat
  layers :: "rat option"
  mmlu_score :: rat
  swe_bench_score :: "rat option"
  features :: "string list option"
  notes_m :: string

text \<open>The object \<open>{ vram, bandwidth }\<close> returned by \<open>calcMultiGpuResources\<close>.\<close>

record resources =
  vram :: f64
  bandwidth :: "f64 option"

text \<open>The object returned by \<open>calcMaxContextWithOffload\<close>.\<close>

record context_result =
  maxCtxK :: rat
  vramCtxK :: rat
  ramCtxK :: rat
  usingSystemRam :: bool

text \<open>
  The object returned by \<open>calcOffloadConfig\<close>: either \<open>{ feasible: false }\<close>, or
  \<open>feasible: true\<close> with the four fields of the plan.
\<close>

record offload_plan =
  gpuWeightGB :: rat
  ramWeightGB :: rat
  offloadRatio :: rat
  estimatedLayers :: rat

datatype offload_config = Infeasible | Feasible offload_plan


text \<open>The object returned by \<open>calcOffloadPenalty\<close>.\<close>

record penalty =
  penaltyPercent :: rat
  speedMultiplier :: rat

text \<open>The object returned by \<open>qualityTier\<close> and \<open>codingQualityTier\<close>.\<close>

record tier_label =
  label :: string
  cls :: string

section \<open>The calculation functions\<close>

text \<open>
  The parameters \<open>vram\<close> and \<open>bandwidth\<close> of the source are written \<open>vramGB\<close> and
  \<open>bw\<close>, since \<open>vram\<close> and \<open>bandwidth\<close> are the fields of the result.
  \<open>calcMultiGpuResources\<close> is in binary64 arithmetic: the products are rounded, and the
  efficiency is the double of the literal.
\<close>

definition calcMultiGpuResources :: "rat \<Rightarrow> rat option \<Rightarrow> rat option \<Rightarrow> resources" where
  "calcMultiGpuResources vramGB bw quantity =
     (case quantity of
        None \<Rightarrow> \<lparr>vram = Fin vramGB, bandwidth = map_option Fin bw\<rparr>
      | Some q \<Rightarrow>
          if q = 1 then \<lparr>vram = Fin vramGB, bandwidth = map_option Fin bw\<rparr>
          else
            let totalVram = f_mul (Fin vramGB) (Fin q) in
            (case bw of
               None \<Rightarrow> \<lparr>vram = totalVram, bandwidth = None\<rparr>
             | Some b \<Rightarrow>
                 let efficiency = (if q = 2 then fl 0.85 else if q = 3 then fl 0.75 else fl 0.70);
                     effectiveBandwidth = Math_round_f (f_mul (f_mul (Fin b) (Fin q)) efficiency)
                 in \<lparr>vram = totalVram, bandwidth = Some effectiveBandwidth\<rparr>))"

text \<open>
  \<open>calcMaxContext\<close> and \<open>calcTokPerSec\<close> are given twice: in exact arithmetic, as
  \<open>bucketModels\<close> uses them here, and in binary64 arithmetic.
\<close>

definition calcMaxContext :: "model \<Rightarrow> rat \<Rightarrow> rat" where
  "calcMaxContext m userVram =
     (let availableForKv = userVram - weight_gb m in
      if availableForKv \<le> 0 then 0
      else if kv_per_1k_gb m \<le> 0 then max_context_k m
      else
        let maxTokensK = availableForKv / kv_per_1k_gb m
        in min (Math_floor maxTokensK) (max_context_k m))"

definition calcMaxContext_f64 :: "model \<Rightarrow> rat \<Rightarrow> f64" where
  "calcMaxContext_f64 m userVram =
     (let availableForKv = f_sub (Fin userVram) (Fin (weight_gb m)) in
      if f_le availableForKv (Fin 0) then Fin 0
      else if kv_per_1k_gb m \<le> 0 then Fin (max_context_k m)
      else
        let maxTokensK = f_div availableForKv (Fin (kv_per_1k_gb m))
        in Math_min_f (Math_floor_f maxTokensK) (Fin (max_context_k m)))"

definition calcTokPerSec :: "model \<Rightarrow> rat option \<Rightarrow> rat option" where
  "calcTokPerSec m bw =
     (case bw of
        None \<Rightarrow> None
      | Some b \<Rightarrow> Some (Math_round (b / (weight_gb m + INFERENCE_OVERHEAD_GB))))"

definition calcTokPerSec_f64 :: "model \<Rightarrow> rat option \<Rightarrow> f64 option" where
  "calcTokPerSec_f64 m bw =
     (case bw of
        None \<Rightarrow> None
      | Some b \<Rightarrow>
          Some (Math_round_f
                 (f_div (Fin b) (f_add (Fin (weight_gb m)) (Fin INFERENCE_OVERHEAD_GB)))))"

definition calcMaxContextWithOffload :: "model \<Rightarrow> rat \<Rightarrow> rat option \<Rightarrow> context_result" where
  "calcMaxContextWithOffload m vramGB systemRamGB =
     (let availableForKv = vramGB - weight_gb m in
      if availableForKv \<le> 0
      then \<lparr>maxCtxK = 0, vramCtxK = 0, ramCtxK = 0, usingSystemRam = False\<rparr>
      else if kv_per_1k_gb m \<le> 0
      then \<lparr>maxCtxK = max_context_k m, vramCtxK = max_context_k m, ramCtxK = 0,
            usingSystemRam = False\<rparr>
      else
        let vramCtx = Math_floor (availableForKv / kv_per_1k_gb m) in
        (case systemRamGB of
           None \<Rightarrow>
             let capped = min vramCtx (max_context_k m)
             in \<lparr>maxCtxK = capped, vramCtxK = capped, ramCtxK = 0, usingSystemRam = False\<rparr>
         | Some ram \<Rightarrow>
             let ramCtx = Math_floor (ram / kv_per_1k_gb m);
                 totalCtxK = min (vramCtx + ramCtx) (max_context_k m);
                 actualRamCtxK = totalCtxK - min vramCtx totalCtxK
             in \<lparr>maxCtxK = totalCtxK, vramCtxK = min vramCtx totalCtxK,
                  ramCtxK = actualRamCtxK, usingSystemRam = (actualRamCtxK > 0)\<rparr>))"

text \<open>
  \<open>model.layers ?? 0\<close> is the layer count, 0 when absent. The quotient
  \<open>ramWeightGB / model.weight_gb\<close> has a zero divisor only for \<open>weight_gb = 0\<close>, where
  the dividend is 0 as well: the source gets \<open>NaN\<close>, HOL gets 0, and both fail the
  tests \<open>offloadRatio > MAX_OFFLOAD_RATIO\<close> and \<open>offloadRatio > 0\<close>.
\<close>

definition calcOffloadConfig :: "model \<Rightarrow> rat \<Rightarrow> rat option \<Rightarrow> offload_config" where
  "calcOffloadConfig m vramGB systemRamGB =
     (let reserveForKV = INFERENCE_OVERHEAD_GB;
          availableForWeights = vramGB - reserveForKV
      in
      if weight_gb m \<le> availableForWeights
      then Feasible \<lparr>gpuWeightGB = weight_gb m, ramWeightGB = 0, offloadRatio = 0,
                      estimatedLayers = 0\<rparr>
      else
        (case systemRamGB of
           None \<Rightarrow> Infeasible
         | Some ram \<Rightarrow>
             let ramWeight = weight_gb m - max availableForWeights 0;
                 ratio = ramWeight / weight_gb m
             in
             if ratio > MAX_OFFLOAD_RATIO \<or> ramWeight > ram then Infeasible
             else Feasible \<lparr>gpuWeightGB = max availableForWeights 0,
                             ramWeightGB = ramWeight,
                             offloadRatio = ratio,
                             estimatedLayers =
                               Math_round (ratio * (case layers m of None \<Rightarrow> 0 | Some l \<Rightarrow> l))\<rparr>))"

definition calcOffloadPenalty :: "rat \<Rightarrow> rat option \<Rightarrow> penalty" where
  "calcOffloadPenalty ratio bw =
     (if ratio \<le> 0 then \<lparr>penaltyPercent = 0, speedMultiplier = 1.0\<rparr>
      else
        let base = 0.15 + ratio * 0.70;
            adjusted =
              (case bw of
                 None \<Rightarrow> base
               | Some b \<Rightarrow>
                   if b < 400 then base * 0.80
                   else if b < 700 then base * 0.90
                   else base);
            capped = min adjusted 0.50
        in \<lparr>penaltyPercent = Math_round (capped * 100), speedMultiplier = 1 - capped\<rparr>)"

definition qualityTier :: "rat \<Rightarrow> tier_label" where
  "qualityTier score =
     (if score \<ge> 83 then \<lparr>label = ''Excellent'', cls = ''tier-excellent''\<rparr>
      else if score \<ge> 75 then \<lparr>label = ''Great'', cls = ''tier-great''\<rparr>
      else if score \<ge> 67 then \<lparr>label = ''Good'', cls = ''tier-good''\<rparr>
      else if score \<ge> 55 then \<lparr>label = ''Fair'', cls = ''tier-fair''\<rparr>
      else \<lparr>label = ''Basic'', cls = ''tier-basic''\<rparr>)"

definition codingQualityTier :: "rat option \<Rightarrow> tier_label" where
  "codingQualityTier sc =
     (case sc of
        None \<Rightarrow> \<lparr>label = ''N/A'', cls = ''tier-na''\<rparr>
      | Some score \<Rightarrow>
          if score \<ge> 30 then \<lparr>label = ''Excellent'', cls = ''tier-excellent''\<rparr>
          else if score \<ge> 22 then \<lparr>label = ''Great'', cls = ''tier-great''\<rparr>
          else if score \<ge> 15 then \<lparr>label = ''Good'', cls = ''tier-good''\<rparr>
          else if score \<ge> 8 then \<lparr>label = ''Fair'', cls = ''tier-fair''\<rparr>
          else \<lparr>label = ''Basic'', cls = ''tier-basic''\<rparr>)"

text \<open>The medium model of the scenarios: 8.99 GB of weights, 0.25 GB per 1K tokens, 128K.\<close>

definition mediumModel :: model where
  "mediumModel =
     \<lparr>id_m = ''test-medium'', name = ''Test Medium'', params_b = 14,
      quantization = ''Q4_K_M'', weight_gb = 8.99, kv_per_1k_gb = 0.25,
      max_context_k = 128, layers = None, mmlu_score = 79.9,
      swe_bench_score = None, features = None, notes_m = ''''\<rparr>"

text \<open>
  The same model with the weight 8.99 as a double, and two models of the catalog's kind
  with the doubles of the weights 2.48 and 7.96 and of the KV cost 0.092 (lemma
  \<open>literal_doubles\<close>).
\<close>

definition mediumModel_f64 :: model where
  "mediumModel_f64 = mediumModel\<lparr>weight_gb := 5060920081257595 / 562949953421312\<rparr>"

definition model_2_48 :: model where
  "model_2_48 =
     mediumModel\<lparr>weight_gb := 5584463537939415 / 2251799813685248,
                  kv_per_1k_gb := 3314649325744685 / 36028797018963968\<rparr>"

definition model_7_96 :: model where
  "model_7_96 = mediumModel\<lparr>weight_gb := 8962163258467287 / 1125899906842624\<rparr>"

section \<open>Bucketing\<close>

text \<open>
  \<open>compareScores\<close>: descending by score, a \<open>null\<close> score after every number.
\<close>

definition compareScores :: "rat option \<Rightarrow> rat option \<Rightarrow> rat" where
  "compareScores a b =
     (case a of
        None \<Rightarrow> (case b of None \<Rightarrow> 0 | Some y \<Rightarrow> 1)
      | Some x \<Rightarrow> (case b of None \<Rightarrow> - 1 | Some y \<Rightarrow> y - x))"

text \<open>\<open>x || y\<close> on numbers: \<open>x\<close> unless it is 0.\<close>

definition js_or :: "rat \<Rightarrow> rat \<Rightarrow> rat" where
  "js_or x y = (if x \<noteq> 0 then x else y)"

text \<open>
  \<open>Array.prototype.sort\<close> with a comparator is a stable sort: an element goes before
  the elements the comparator puts it before or leaves it equal to, in the order of the
  array. The comparators of this module order by one or two numeric keys, so they are
  consistent and the sorted array does not depend on the algorithm of the engine; the
  model is the stable insertion sort.
\<close>

fun insert_by :: "('a \<Rightarrow> 'a \<Rightarrow> rat) \<Rightarrow> 'a \<Rightarrow> 'a list \<Rightarrow> 'a list" where
  "insert_by cmp x [] = [x]"
| "insert_by cmp x (y # ys) =
     (if cmp x y \<le> 0 then x # y # ys else y # insert_by cmp x ys)"

definition array_sort :: "('a \<Rightarrow> 'a \<Rightarrow> rat) \<Rightarrow> 'a list \<Rightarrow> 'a list" where
  "array_sort cmp xs = foldr (insert_by cmp) xs []"

text \<open>
  The \<open>offloadInfo\<close> and \<open>ctxInfo\<close> objects of an enriched entry; the field
  \<open>type\<close> of the source is \<open>type_info\<close> here.
\<close>

record offload_info =
  type_info :: string
  gpuWeightGB :: rat
  ramWeightGB :: rat
  offloadRatio :: rat
  estimatedLayers :: rat
  penaltyPercent :: rat
  speedMultiplier :: rat

record ctx_info =
  vramCtxK :: rat
  ramCtxK :: rat

text \<open>
  An enriched entry \<open>{ ...m, maxCtxK, fitsAtAll, ... }\<close>: the fields of the model, copied
  by the spread, are the field \<open>model\<close>.
\<close>

record entry =
  model :: model
  maxCtxK :: rat
  fitsAtAll :: bool
  meetsMinCtx :: bool
  meetsMinSpeed :: bool
  meetsFeatures :: bool
  modelSupportsCtx :: bool
  tokPerSec :: "rat option"
  tier :: tier_label
  offloadInfo :: "offload_info option"
  ctxInfo :: "ctx_info option"

text \<open>The callback of \<open>allModels.map\<close> in \<open>bucketModels\<close>.\<close>

definition enrich ::
  "rat \<Rightarrow> rat option \<Rightarrow> rat option \<Rightarrow> rat option \<Rightarrow> string list \<Rightarrow> string \<Rightarrow> rat option
   \<Rightarrow> model \<Rightarrow> entry" where
  "enrich vramGB bw minContextK minTokPerSec requiredFeatures sortBy systemRamGB m =
     (let effectiveMinCtx = minContextK;
          totalAtMinCtx = weight_gb m + kv_per_1k_gb m;
          fitsInVram = (vramGB \<ge> totalAtMinCtx);
          (offInfo, weightsAvailable) =
            (if \<not> fitsInVram \<and> systemRamGB \<noteq> None then
               (case calcOffloadConfig m vramGB systemRamGB of
                  Infeasible \<Rightarrow> (None, fitsInVram)
                | Feasible offload \<Rightarrow>
                    if offload_plan.offloadRatio offload > 0 then
                      let pen = calcOffloadPenalty (offload_plan.offloadRatio offload) bw
                      in (Some \<lparr>type_info = ''weights'',
                                gpuWeightGB = offload_plan.gpuWeightGB offload,
                                ramWeightGB = offload_plan.ramWeightGB offload,
                                offloadRatio = offload_plan.offloadRatio offload,
                                estimatedLayers = offload_plan.estimatedLayers offload,
                                penaltyPercent = penalty.penaltyPercent pen,
                                speedMultiplier = penalty.speedMultiplier pen\<rparr>,
                          True)
                    else (None, fitsInVram))
             else (None, fitsInVram));
          (maxCtx, ctxI) =
            (if weightsAvailable \<and> offInfo = None \<and> systemRamGB \<noteq> None then
               let extended = calcMaxContextWithOffload m vramGB systemRamGB
               in (context_result.maxCtxK extended,
                   if usingSystemRam extended
                   then Some \<lparr>vramCtxK = context_result.vramCtxK extended,
                              ramCtxK = context_result.ramCtxK extended\<rparr>
                   else None)
             else
               (case offInfo of
                  Some oi \<Rightarrow>
                    let vramForKv = max (vramGB - gpuWeightGB oi - INFERENCE_OVERHEAD_GB) 0
                    in (if kv_per_1k_gb m > 0
                        then min (Math_floor (vramForKv / kv_per_1k_gb m)) (max_context_k m)
                        else max_context_k m,
                        None)
                | None \<Rightarrow> (calcMaxContext m vramGB, None)));
          supportsCtx =
            (case effectiveMinCtx of None \<Rightarrow> True | Some c \<Rightarrow> max_context_k m \<ge> c);
          meetsCtx =
            (case effectiveMinCtx of None \<Rightarrow> True | Some c \<Rightarrow> maxCtx \<ge> c);
          tps0 = calcTokPerSec m bw;
          tps =
            (case tps0 of
               None \<Rightarrow> tps0
             | Some t \<Rightarrow>
                 (case offInfo of
                    None \<Rightarrow> tps0
                  | Some oi \<Rightarrow> Some (Math_round (t * speedMultiplier oi))));
          meetsSpeed =
            (case minTokPerSec of
               None \<Rightarrow> True
             | Some lo \<Rightarrow> (case tps of None \<Rightarrow> True | Some t \<Rightarrow> t \<ge> lo));
          modelFeatures = (case features m of None \<Rightarrow> [] | Some fs \<Rightarrow> fs);
          meetsFeats =
            (if length requiredFeatures > 0
             then list_all (\<lambda>f. f \<in> set modelFeatures) requiredFeatures
             else True);
          tr =
            (if sortBy = ''swe-bench''
             then codingQualityTier (swe_bench_score m)
             else qualityTier (mmlu_score m))
      in \<lparr>model = m,
          maxCtxK = maxCtx,
          fitsAtAll = weightsAvailable,
          meetsMinCtx = meetsCtx,
          meetsMinSpeed = meetsSpeed,
          meetsFeatures = meetsFeats,
          modelSupportsCtx = supportsCtx,
          tokPerSec = tps,
          tier = tr,
          offloadInfo = offInfo,
          ctxInfo = ctxI\<rparr>)"

text \<open>The three arrays filled by the loop over the entries.\<close>

record buckets =
  fits :: "entry list"
  tight :: "entry list"
  noFit :: "entry list"

text \<open>One pass of the loop \<open>for (const e of entries)\<close>: \<open>push\<close> appends.\<close>

definition place :: "buckets \<Rightarrow> entry \<Rightarrow> buckets" where
  "place b e =
     (if \<not> fitsAtAll e \<or> \<not> modelSupportsCtx e then b\<lparr>noFit := noFit b @ [e]\<rparr>
      else if offloadInfo e \<noteq> None then b\<lparr>tight := tight b @ [e]\<rparr>
      else if \<not> meetsMinCtx e \<or> \<not> meetsMinSpeed e \<or> \<not> meetsFeatures e
      then b\<lparr>tight := tight b @ [e]\<rparr>
      else if maxCtxK e < TIGHT_FIT_CONTEXT_K then b\<lparr>tight := tight b @ [e]\<rparr>
      else b\<lparr>fits := fits b @ [e]\<rparr>)"

definition bucketModels ::
  "model list \<Rightarrow> rat \<Rightarrow> rat option \<Rightarrow> rat option \<Rightarrow> rat option \<Rightarrow> string list \<Rightarrow> string
   \<Rightarrow> rat option \<Rightarrow> buckets" where
  "bucketModels allModels vramGB bw minContextK minTokPerSec requiredFeatures sortBy systemRamGB =
     (let entries =
            map (enrich vramGB bw minContextK minTokPerSec requiredFeatures sortBy systemRamGB)
              allModels;
          b = foldl place \<lparr>fits = [], tight = [], noFit = []\<rparr> entries
      in
      if sortBy = ''swe-bench'' then
        let sortFn = (\<lambda>a b.
              js_or (compareScores (swe_bench_score (model a)) (swe_bench_score (model b)))
                (maxCtxK b - maxCtxK a))
        in \<lparr>fits = array_sort sortFn (fits b),
            tight = array_sort sortFn (tight b),
            noFit = array_sort (\<lambda>a b.
              js_or (compareScores (swe_bench_score (model a)) (swe_bench_score (model b)))
                (weight_gb (model b) - weight_gb (model a))) (noFit b)\<rparr>
      else
        \<lparr>fits = array_sort (\<lambda>a b.
             js_or (mmlu_score (model b) - mmlu_score (model a)) (maxCtxK b - maxCtxK a)) (fits b),
         tight = array_sort (\<lambda>a b.
             js_or (mmlu_score (model b) - mmlu_score (model a)) (maxCtxK b - maxCtxK a)) (tight b),
         noFit = array_sort (\<lambda>a b.
             js_or (mmlu_score (model b) - mmlu_score (model a))
               (weight_gb (model b) - weight_gb (model a))) (noFit b)\<rparr>)"

section \<open>Grouping of variants\<close>

text \<open>
  A group object. \<open>m.swe_bench_score ?? null\<close> keeps the optional score;
  \<open>m.features ?? []\<close> is the feature list, empty when absent.
\<close>

record group =
  name :: string
  params_b :: rat
  tier :: tier_label
  mmlu_score :: rat
  swe_bench_score :: "rat option"
  features :: "string list"
  variants :: "entry list"

text \<open>
  The loop of \<open>groupVariants\<close> keeps the array \<open>groups\<close> and the map \<open>seen\<close> from a
  name to its group object, which is the very object stored in \<open>groups\<close>: \<open>seen\<close>
  is modelled as a map from the name to the index of that object in \<open>groups\<close>, and a
  \<open>push\<close> on \<open>seen.get(m.name).variants\<close> updates the group at that index.
\<close>

definition add_variant ::
  "group list \<times> (string \<rightharpoonup> nat) \<Rightarrow> entry \<Rightarrow> group list \<times> (string \<rightharpoonup> nat)" where
  "add_variant st m =
     (case st of (groups, seen) \<Rightarrow>
        (case seen (model.name (model m)) of
           Some i \<Rightarrow>
             (groups[i := (groups ! i)\<lparr>variants := variants (groups ! i) @ [m]\<rparr>], seen)
         | None \<Rightarrow>
             (groups @ [\<lparr>name = model.name (model m),
                          params_b = model.params_b (model m),
                          tier = entry.tier m,
                          mmlu_score = model.mmlu_score (model m),
                          swe_bench_score = model.swe_bench_score (model m),
                          features =
                            (case model.features (model m) of None \<Rightarrow> [] | Some fs \<Rightarrow> fs),
                          variants = [m]\<rparr>],
              seen(model.name (model m) \<mapsto> length groups))))"

definition groupVariants :: "entry list \<Rightarrow> group list" where
  "groupVariants models =
     (case foldl add_variant ([], Map.empty) models of (groups, seen) \<Rightarrow>
        map (\<lambda>g. g\<lparr>variants :=
                     array_sort (\<lambda>a b. weight_gb (model a) - weight_gb (model b)) (variants g)\<rparr>)
          groups)"

text \<open>
  The invariant of the loop of \<open>groupVariants\<close>, after the entries \<open>ms\<close>: the groups
  are named by the names of \<open>ms\<close> in the order of their first appearance; \<open>seen\<close> maps
  the name of each group to its index, and no other name; a group holds the entries of
  its name, in the order of \<open>ms\<close>, and has its shared fields from the first of them; and
  the groups together hold the entries of \<open>ms\<close>.
\<close>

definition groups_inv :: "entry list \<Rightarrow> group list \<times> (string \<rightharpoonup> nat) \<Rightarrow> bool" where
  "groups_inv ms st =
     (case st of (gs, seen) \<Rightarrow>
        map group.name gs = rev (remdups (rev (map (\<lambda>m. model.name (model m)) ms)))
        \<and> (\<forall>i < length gs. seen (group.name (gs ! i)) = Some i)
        \<and> (\<forall>n. n \<notin> set (map group.name gs) \<longrightarrow> seen n = None)
        \<and> (\<forall>i < length gs.
              variants (gs ! i) = filter (\<lambda>m. model.name (model m) = group.name (gs ! i)) ms)
        \<and> (\<forall>i < length gs.
              variants (gs ! i) \<noteq> []
              \<and> group.params_b (gs ! i) = model.params_b (model (hd (variants (gs ! i))))
              \<and> group.tier (gs ! i) = entry.tier (hd (variants (gs ! i)))
              \<and> group.mmlu_score (gs ! i) = model.mmlu_score (model (hd (variants (gs ! i))))
              \<and> group.swe_bench_score (gs ! i)
                  = model.swe_bench_score (model (hd (variants (gs ! i))))
              \<and> group.features (gs ! i)
                  = (case model.features (model (hd (variants (gs ! i)))) of
                       None \<Rightarrow> [] | Some fs \<Rightarrow> fs))
        \<and> mset (concat (map variants gs)) = mset ms)"

text \<open>
  The fixture \<open>makeEntry\<close> of the tests of \<open>groupVariants\<close>, with the name, the
  quantization and the weight overridden, and three entries of two names.
\<close>

definition makeEntry :: "string \<Rightarrow> string \<Rightarrow> rat \<Rightarrow> entry" where
  "makeEntry nm quant weight =
     \<lparr>model = \<lparr>id_m = '''', model.name = nm, model.params_b = 8, quantization = quant,
                weight_gb = weight, kv_per_1k_gb = 0.125, max_context_k = 128, layers = None,
                model.mmlu_score = 70, model.swe_bench_score = None,
                model.features = Some [], notes_m = ''''\<rparr>,
      maxCtxK = 64, fitsAtAll = True, meetsMinCtx = True, meetsMinSpeed = True,
      meetsFeatures = True, modelSupportsCtx = True, tokPerSec = Some 50,
      entry.tier = \<lparr>label = ''Good'', cls = ''tier-good''\<rparr>,
      offloadInfo = None, ctxInfo = None\<rparr>"

definition exampleEntries :: "entry list" where
  "exampleEntries =
     [makeEntry ''Better Model'' ''Q8_0'' 5,
      makeEntry ''Worse Model'' ''Q8_0'' 5,
      makeEntry ''Better Model'' ''Q4_K_M'' 3]"

section \<open>Evaluation of floor and round on rationals\<close>

lemma floor_rat_numeral_div [simp]:
  "\<lfloor>(numeral a :: rat) / numeral b\<rfloor> = numeral a div numeral b"
  using floor_divide_of_int_eq [of "numeral a" "numeral b", where ?'a = rat] by simp

lemma round_rat_numeral_div [simp]:
  "round ((numeral a :: rat) / numeral b) = (2 * numeral a + numeral b) div (2 * numeral b)"
proof -
  have "(numeral a :: rat) / numeral b + 1 / 2
        = of_int (2 * numeral a + numeral b) / of_int (2 * numeral b)"
    by (simp add: field_simps)
  then show ?thesis
    unfolding round_def by (simp only: floor_divide_of_int_eq)
qed

lemma ceiling_rat_numeral_div [simp]:
  "\<lceil>(numeral a :: rat) / numeral b\<rceil> = - ((- numeral a) div numeral b)"
  using floor_divide_of_int_eq [of "- numeral a" "numeral b", where ?'a = rat]
  by (simp add: ceiling_def)

lemma floor_rat_one_div [simp]: "\<lfloor>(1 :: rat) / numeral b\<rfloor> = 1 div numeral b"
  using floor_divide_of_int_eq [of 1 "numeral b", where ?'a = rat] by simp

lemmas fl_eval = fl_def overflow_def fl_pos_def round_to_def quantum_def ilog2_def
  round_half_even_def pow2_def log2i.simps Let_def

section \<open>Rounding to a double\<close>

lemma fl_not_NaN: "fl x \<noteq> NaN"
  by (simp add: fl_def overflow_def)

lemma fl_cases:
  obtains (Fin) y where "fl x = Fin y" | (PInf) "fl x = PInf" | (NInf) "fl x = NInf"
  using fl_not_NaN [of x] by (cases "fl x") auto

lemma literal_doubles:
  "fl 8.99 = Fin (weight_gb mediumModel_f64)"
  "fl 2.48 = Fin (weight_gb model_2_48)"
  "fl 0.092 = Fin (kv_per_1k_gb model_2_48)"
  "fl 7.96 = Fin (weight_gb model_7_96)"
  "fl 10.1 = Fin (5685794529555251 / 562949953421312)"
  by (simp_all add: fl_eval mediumModel_f64_def model_2_48_def model_7_96_def)


text \<open>
  The rounding at its edges: a repeating fraction, the two ties next to 1 (to the even
  significand), the largest double, the overflow to infinity from its tie on, and the
  ties below and above the smallest subnormal.
\<close>

lemma fl_edges:
  "fl (1 / 3) = Fin (6004799503160661 / 18014398509481984)"
  "fl (1 + pow2 (- 53)) = Fin 1"
  "fl (1 + 3 * pow2 (- 53)) = Fin (1 + pow2 (- 51))"
  "fl ((pow2 53 - 1) * pow2 971) = Fin ((pow2 53 - 1) * pow2 971)"
  "fl (pow2 1024 - pow2 970) = PInf"
  "fl (- pow2 1024) = NInf"
  "fl (pow2 (- 1075)) = Fin 0"
  "fl (3 * pow2 (- 1075)) = Fin (pow2 (- 1073))"
  by (simp_all add: fl_eval)

section \<open>Context, throughput and resource estimates\<close>

text \<open>
  Claim C1, amended. For a model with \<open>weight_gb > 0\<close>, \<open>max_context_k > 0\<close> and
  \<open>kv_per_1k_gb \<ge> 0\<close>, and every VRAM: with \<open>a\<close> the binary64 difference of the VRAM and
  the weights, \<open>calcMaxContext\<close> is 0 when \<open>a \<le> 0\<close>; it is \<open>max_context_k\<close> when \<open>a > 0\<close>
  and the KV cost is not positive; otherwise it is the smaller of \<open>max_context_k\<close> and the
  floor of the binary64 quotient of \<open>a\<close> by the KV cost. The result never exceeds
  \<open>max_context_k\<close>, and the medium model on 24 GB gets 60.
\<close>

lemma calcMaxContext_f64_scenario: "calcMaxContext_f64 mediumModel_f64 24 = Fin 60"
  by (simp add: calcMaxContext_f64_def mediumModel_f64_def mediumModel_def fl_eval)

lemma calcMaxContext_f64_cap:
  assumes "max_context_k m > 0"
  shows "f_le (calcMaxContext_f64 m v) (Fin (max_context_k m))"
proof (cases rule: fl_cases [of "v - weight_gb m"])
  case (Fin y)
  show ?thesis
  proof (cases "y \<le> 0 \<or> kv_per_1k_gb m \<le> 0")
    case True
    with Fin assms show ?thesis
      by (auto simp: calcMaxContext_f64_def Let_def)
  next
    case False
    then have kv: "kv_per_1k_gb m \<noteq> 0" by auto
    show ?thesis
      using Fin False kv
      by (cases rule: fl_cases [of "y / kv_per_1k_gb m"])
        (simp_all add: calcMaxContext_f64_def Let_def)
  qed
next
  case PInf
  with assms show ?thesis
    by (simp add: calcMaxContext_f64_def Let_def)
next
  case NInf
  with assms show ?thesis
    by (simp add: calcMaxContext_f64_def Let_def)
qed

theorem calcMaxContext_f64_spec:
  assumes "weight_gb m > 0" and "max_context_k m > 0" and "kv_per_1k_gb m \<ge> 0"
  shows "(f_le (f_sub (Fin userVram) (Fin (weight_gb m))) (Fin 0)
            \<longrightarrow> calcMaxContext_f64 m userVram = Fin 0)
       \<and> (\<not> f_le (f_sub (Fin userVram) (Fin (weight_gb m))) (Fin 0) \<and> kv_per_1k_gb m \<le> 0
            \<longrightarrow> calcMaxContext_f64 m userVram = Fin (max_context_k m))
       \<and> (\<not> f_le (f_sub (Fin userVram) (Fin (weight_gb m))) (Fin 0) \<and> \<not> kv_per_1k_gb m \<le> 0
            \<longrightarrow> calcMaxContext_f64 m userVram
                = Math_min_f
                    (Math_floor_f
                      (f_div (f_sub (Fin userVram) (Fin (weight_gb m))) (Fin (kv_per_1k_gb m))))
                    (Fin (max_context_k m)))
       \<and> f_le (calcMaxContext_f64 m userVram) (Fin (max_context_k m))
       \<and> calcMaxContext_f64 mediumModel_f64 24 = Fin 60"
proof -
  have zero: "f_le (f_sub (Fin userVram) (Fin (weight_gb m))) (Fin 0)
      \<longrightarrow> calcMaxContext_f64 m userVram = Fin 0"
    by (simp add: calcMaxContext_f64_def)
  have unlimited: "\<not> f_le (f_sub (Fin userVram) (Fin (weight_gb m))) (Fin 0) \<and> kv_per_1k_gb m \<le> 0
      \<longrightarrow> calcMaxContext_f64 m userVram = Fin (max_context_k m)"
    by (simp add: calcMaxContext_f64_def)
  have limited: "\<not> f_le (f_sub (Fin userVram) (Fin (weight_gb m))) (Fin 0) \<and> \<not> kv_per_1k_gb m \<le> 0
      \<longrightarrow> calcMaxContext_f64 m userVram
          = Math_min_f
              (Math_floor_f
                (f_div (f_sub (Fin userVram) (Fin (weight_gb m))) (Fin (kv_per_1k_gb m))))
              (Fin (max_context_k m))"
    by (simp add: calcMaxContext_f64_def Let_def)
  from zero unlimited limited calcMaxContext_f64_cap [OF assms(2)] calcMaxContext_f64_scenario
  show ?thesis by (intro conjI)
qed

theorem calcMaxContext_f64_spec_witness:
  "weight_gb mediumModel_f64 > 0 \<and> max_context_k mediumModel_f64 > 0
   \<and> kv_per_1k_gb mediumModel_f64 \<ge> 0
   \<and> \<not> f_le (f_sub (Fin 24) (Fin (weight_gb mediumModel_f64))) (Fin 0)
   \<and> \<not> kv_per_1k_gb mediumModel_f64 \<le> 0
   \<and> calcMaxContext_f64 mediumModel_f64 24
       = Math_min_f
           (Math_floor_f
             (f_div (f_sub (Fin 24) (Fin (weight_gb mediumModel_f64)))
                (Fin (kv_per_1k_gb mediumModel_f64))))
           (Fin (max_context_k mediumModel_f64))
   \<and> calcMaxContext_f64 mediumModel_f64 24 = Fin 60
   \<and> f_le (calcMaxContext_f64 mediumModel_f64 24) (Fin (max_context_k mediumModel_f64))"
proof -
  have hyp: "weight_gb mediumModel_f64 > 0" "max_context_k mediumModel_f64 > 0"
    "kv_per_1k_gb mediumModel_f64 \<ge> 0" "\<not> kv_per_1k_gb mediumModel_f64 \<le> 0"
    by (simp_all add: mediumModel_f64_def mediumModel_def)
  have pos: "\<not> f_le (f_sub (Fin 24) (Fin (weight_gb mediumModel_f64))) (Fin 0)"
    by (simp add: mediumModel_f64_def fl_eval)
  from calcMaxContext_f64_spec [OF hyp(1,2,3), of 24] hyp pos show ?thesis
    by blast
qed


text \<open>
  Claim C1 as stated takes the difference and the quotient exactly. On 8 GB, with the
  doubles of the weight 2.48 and of the KV cost 0.092, the exact quotient has the floor
  60, and the function returns 59.
\<close>

theorem calcMaxContext_exact_counterexample:
  "weight_gb model_2_48 > 0 \<and> max_context_k model_2_48 > 0 \<and> kv_per_1k_gb model_2_48 \<ge> 0
   \<and> 8 - weight_gb model_2_48 > 0 \<and> \<not> kv_per_1k_gb model_2_48 \<le> 0
   \<and> calcMaxContext_f64 model_2_48 8 = Fin 59
   \<and> min (of_int \<lfloor>(8 - weight_gb model_2_48) / kv_per_1k_gb model_2_48\<rfloor>)
         (max_context_k model_2_48) = (60::rat)"
  by (simp add: calcMaxContext_f64_def model_2_48_def mediumModel_def fl_eval)

text \<open>
  Claim C2. Without system RAM (\<open>null\<close>), \<open>calcMaxContextWithOffload\<close> gives the
  context of \<open>calcMaxContext\<close> for the same model and VRAM, with no context in RAM and
  \<open>usingSystemRam\<close> false; the medium model on 12 GB gets 12.
\<close>

theorem calcMaxContextWithOffload_null:
  "context_result.maxCtxK (calcMaxContextWithOffload m vramGB None) = calcMaxContext m vramGB
   \<and> context_result.ramCtxK (calcMaxContextWithOffload m vramGB None) = 0
   \<and> usingSystemRam (calcMaxContextWithOffload m vramGB None) = False
   \<and> context_result.maxCtxK (calcMaxContextWithOffload mediumModel 12 None) = 12
   \<and> calcMaxContext mediumModel 12 = 12"
proof -
  have ex: "calcMaxContext mediumModel 12 = 12"
    by (simp add: calcMaxContext_def mediumModel_def Math_floor_def)
  have eq: "context_result.maxCtxK (calcMaxContextWithOffload m' v None) = calcMaxContext m' v" for m' v
    by (simp add: calcMaxContextWithOffload_def calcMaxContext_def Let_def)
  show ?thesis
    by (simp add: eq ex) (simp add: calcMaxContextWithOffload_def Let_def)
qed

text \<open>
  Claim C7, amended. For a model with \<open>weight_gb > 0\<close>, \<open>calcTokPerSec\<close> is \<open>null\<close>
  exactly when the bandwidth is \<open>null\<close>, and otherwise \<open>Math.round\<close> of the binary64
  quotient of the bandwidth by the binary64 sum of the weights and 1.0 GB; 504 GB/s on the
  medium model gives 50.
\<close>

lemma calcTokPerSec_f64_scenario: "calcTokPerSec_f64 mediumModel_f64 (Some 504) = Some (Fin 50)"
  by (simp add: calcTokPerSec_f64_def mediumModel_f64_def mediumModel_def
      INFERENCE_OVERHEAD_GB_def fl_eval)

theorem calcTokPerSec_f64_spec:
  assumes "weight_gb m > 0"
  shows "(calcTokPerSec_f64 m bw = None \<longleftrightarrow> bw = None)
       \<and> calcTokPerSec_f64 m (Some b)
           = Some (Math_round_f (f_div (Fin b) (f_add (Fin (weight_gb m)) (Fin 1.0))))
       \<and> calcTokPerSec_f64 mediumModel_f64 (Some 504) = Some (Fin 50)"
proof -
  have null: "calcTokPerSec_f64 m bw = None \<longleftrightarrow> bw = None"
    by (simp add: calcTokPerSec_f64_def split: option.splits)
  have val: "calcTokPerSec_f64 m (Some b)
      = Some (Math_round_f (f_div (Fin b) (f_add (Fin (weight_gb m)) (Fin 1.0))))"
    by (simp add: calcTokPerSec_f64_def INFERENCE_OVERHEAD_GB_def)
  from null val calcTokPerSec_f64_scenario show ?thesis
    by (intro conjI)
qed

theorem calcTokPerSec_f64_spec_witness:
  "weight_gb mediumModel_f64 > 0
   \<and> calcTokPerSec_f64 mediumModel_f64 None = None
   \<and> calcTokPerSec_f64 mediumModel_f64 (Some 504)
       = Some (Math_round_f (f_div (Fin 504) (f_add (Fin (weight_gb mediumModel_f64)) (Fin 1.0))))
   \<and> calcTokPerSec_f64 mediumModel_f64 (Some 504) = Some (Fin 50)"
proof -
  have hyp: "weight_gb mediumModel_f64 > 0"
    by (simp add: mediumModel_f64_def mediumModel_def)
  from calcTokPerSec_f64_spec [OF hyp, of None 504] hyp show ?thesis
    by blast
qed


text \<open>
  Claim C7 as stated takes the sum and the quotient exactly. For 1008 GB/s and the double
  of the weight 7.96 the exact quotient rounds to 113, and the function returns 112.
\<close>

theorem calcTokPerSec_exact_counterexample:
  "weight_gb model_7_96 > 0
   \<and> calcTokPerSec_f64 model_7_96 (Some 1008) = Some (Fin 112)
   \<and> round (1008 / (weight_gb model_7_96 + 1.0)) = 113"
  by (simp add: calcTokPerSec_f64_def model_7_96_def mediumModel_def
      INFERENCE_OVERHEAD_GB_def fl_eval)

text \<open>
  Claim C3, amended. \<open>calcMultiGpuResources\<close> returns \<open>v\<close> and \<open>b\<close> unchanged for the
  count 1 or \<open>null\<close>. For a count \<open>n\<close> from 2 to 8 the pooled VRAM is the binary64
  product of \<open>v\<close> and \<open>n\<close>; an unknown bandwidth stays unknown, and a known one becomes
  \<open>Math.round\<close> of the binary64 product of \<open>b\<close>, \<open>n\<close> and \<open>e\<close>, multiplied in this
  order, with \<open>e\<close> the double of 0.85 for two, of 0.75 for three and of 0.70 for four or
  more; three units of 24 GB and 1008 GB/s give 72 GB and 2268 GB/s.
\<close>

lemma calcMultiGpuResources_scenario:
  "calcMultiGpuResources 24 (Some 1008) (Some 3)
   = \<lparr>vram = Fin 72, bandwidth = Some (Fin 2268)\<rparr>"
  by (simp add: calcMultiGpuResources_def fl_eval)

theorem calcMultiGpuResources_f64_spec:
  assumes "1 \<le> n" and "n \<le> 8"
  shows "calcMultiGpuResources v b (Some 1) = \<lparr>vram = Fin v, bandwidth = map_option Fin b\<rparr>
       \<and> calcMultiGpuResources v b None = \<lparr>vram = Fin v, bandwidth = map_option Fin b\<rparr>
       \<and> (n \<ge> 2 \<longrightarrow> vram (calcMultiGpuResources v b (Some (of_int n)))
                      = f_mul (Fin v) (Fin (of_int n)))
       \<and> (n \<ge> 2 \<longrightarrow> bandwidth (calcMultiGpuResources v None (Some (of_int n))) = None)
       \<and> (n = 2 \<longrightarrow> bandwidth (calcMultiGpuResources v (Some x) (Some (of_int n)))
                      = Some (Math_round_f (f_mul (f_mul (Fin x) (Fin (of_int n))) (fl 0.85))))
       \<and> (n = 3 \<longrightarrow> bandwidth (calcMultiGpuResources v (Some x) (Some (of_int n)))
                      = Some (Math_round_f (f_mul (f_mul (Fin x) (Fin (of_int n))) (fl 0.75))))
       \<and> (n \<ge> 4 \<longrightarrow> bandwidth (calcMultiGpuResources v (Some x) (Some (of_int n)))
                      = Some (Math_round_f (f_mul (f_mul (Fin x) (Fin (of_int n))) (fl 0.70))))
       \<and> calcMultiGpuResources 24 (Some 1008) (Some 3)
           = \<lparr>vram = Fin 72, bandwidth = Some (Fin 2268)\<rparr>"
proof -
  have one: "calcMultiGpuResources v b (Some 1) = \<lparr>vram = Fin v, bandwidth = map_option Fin b\<rparr>"
    by (simp add: calcMultiGpuResources_def)
  have null: "calcMultiGpuResources v b None = \<lparr>vram = Fin v, bandwidth = map_option Fin b\<rparr>"
    by (simp add: calcMultiGpuResources_def)
  have pool: "n \<ge> 2 \<longrightarrow> vram (calcMultiGpuResources v b (Some (of_int n)))
      = f_mul (Fin v) (Fin (of_int n))"
    by (cases b) (auto simp: calcMultiGpuResources_def Let_def)
  have unknown: "n \<ge> 2 \<longrightarrow> bandwidth (calcMultiGpuResources v None (Some (of_int n))) = None"
    by (auto simp: calcMultiGpuResources_def Let_def)
  have two: "n = 2 \<longrightarrow> bandwidth (calcMultiGpuResources v (Some x) (Some (of_int n)))
      = Some (Math_round_f (f_mul (f_mul (Fin x) (Fin (of_int n))) (fl 0.85)))"
    by (simp add: calcMultiGpuResources_def Let_def)
  have three: "n = 3 \<longrightarrow> bandwidth (calcMultiGpuResources v (Some x) (Some (of_int n)))
      = Some (Math_round_f (f_mul (f_mul (Fin x) (Fin (of_int n))) (fl 0.75)))"
    by (simp add: calcMultiGpuResources_def Let_def)
  have many: "n \<ge> 4 \<longrightarrow> bandwidth (calcMultiGpuResources v (Some x) (Some (of_int n)))
      = Some (Math_round_f (f_mul (f_mul (Fin x) (Fin (of_int n))) (fl 0.70)))"
    by (auto simp: calcMultiGpuResources_def Let_def)
  from one null pool unknown two three many calcMultiGpuResources_scenario show ?thesis
    by (intro conjI)
qed

theorem calcMultiGpuResources_f64_spec_witness:
  "(1::int) \<le> 3 \<and> (3::int) \<le> 8 \<and> (3::int) \<ge> 2
   \<and> vram (calcMultiGpuResources 24 (Some 1008) (Some (of_int 3)))
       = f_mul (Fin 24) (Fin (of_int 3))
   \<and> bandwidth (calcMultiGpuResources 24 (Some 1008) (Some (of_int 3)))
       = Some (Math_round_f (f_mul (f_mul (Fin 1008) (Fin (of_int 3))) (fl 0.75)))
   \<and> calcMultiGpuResources 24 (Some 1008) (Some 3)
       = \<lparr>vram = Fin 72, bandwidth = Some (Fin 2268)\<rparr>"
proof -
  have count: "(1::int) \<le> 3" "(3::int) \<le> 8" "(3::int) \<ge> 2"
    by simp_all
  from calcMultiGpuResources_f64_spec [OF count(1,2), of 24 "Some 1008" 1008] count
  show ?thesis by blast
qed


text \<open>
  Claim C3 as stated takes the products exactly, with the efficiency 0.70. Five units of
  273 GB/s give 955, where \<open>round (273 * 5 * 0.70)\<close> is 956; and three units of the double
  of 10.1 GB give a VRAM that is not three times that double.
\<close>

theorem calcMultiGpuResources_exact_counterexample:
  "bandwidth (calcMultiGpuResources 24 (Some 273) (Some 5)) = Some (Fin 955)
   \<and> round (273 * 5 * 0.70 :: rat) = 956
   \<and> vram (calcMultiGpuResources (5685794529555251 / 562949953421312) None (Some 3))
       = Fin (2132172948583219 / 70368744177664)
   \<and> (5685794529555251 / 562949953421312) * 3 \<noteq> (2132172948583219 / 70368744177664 :: rat)"
  by (simp add: calcMultiGpuResources_def fl_eval)

section \<open>The offload penalty\<close>

lemma penaltyPercent_from_speedMultiplier:
  "penalty.penaltyPercent (calcOffloadPenalty r bw)
   = Math_round ((1 - penalty.speedMultiplier (calcOffloadPenalty r bw)) * 100)"
  by (simp add: calcOffloadPenalty_def Let_def Math_round_def)

lemma speedMultiplier_antimono:
  assumes "r1 \<le> r2"
  shows "penalty.speedMultiplier (calcOffloadPenalty r2 bw) \<le> penalty.speedMultiplier (calcOffloadPenalty r1 bw)"
  using assms
  by (cases bw) (auto simp: calcOffloadPenalty_def Let_def min_def)

lemma speedMultiplier_bounds:
  "1 / 2 \<le> penalty.speedMultiplier (calcOffloadPenalty r bw)"
  by (cases bw) (auto simp: calcOffloadPenalty_def Let_def min_def)

lemma Math_round_mono: "x \<le> y \<Longrightarrow> Math_round x \<le> Math_round y"
  by (simp add: Math_round_def round_mono)

text \<open>
  Claim C4. For every bandwidth, known or not, the penalty of \<open>calcOffloadPenalty\<close> (the
  rounded \<open>penaltyPercent\<close>, and \<open>1 - speedMultiplier\<close>) does not decrease when the offload
  ratio grows within \<open>[0, 0.5]\<close>; it never exceeds 50 percent, that is, the speed multiplier
  is at least 0.5; and at the ratio 0 it is 0, with the speed multiplier 1.0.
\<close>

theorem calcOffloadPenalty_monotone_capped:
  "(0 \<le> r1 \<and> r1 \<le> r2 \<and> r2 \<le> 0.5
      \<longrightarrow> penalty.penaltyPercent (calcOffloadPenalty r1 bw) \<le> penalty.penaltyPercent (calcOffloadPenalty r2 bw)
        \<and> 1 - penalty.speedMultiplier (calcOffloadPenalty r1 bw)
            \<le> 1 - penalty.speedMultiplier (calcOffloadPenalty r2 bw))
   \<and> penalty.penaltyPercent (calcOffloadPenalty r bw) \<le> 50
   \<and> 1 - penalty.speedMultiplier (calcOffloadPenalty r bw) \<le> 0.5
   \<and> penalty.speedMultiplier (calcOffloadPenalty r bw) \<ge> 0.5
   \<and> penalty.penaltyPercent (calcOffloadPenalty 0 bw) = 0
   \<and> penalty.speedMultiplier (calcOffloadPenalty 0 bw) = 1.0"
proof -
  have mono: "penalty.penaltyPercent (calcOffloadPenalty r1 bw) \<le> penalty.penaltyPercent (calcOffloadPenalty r2 bw)
      \<and> 1 - penalty.speedMultiplier (calcOffloadPenalty r1 bw) \<le> 1 - penalty.speedMultiplier (calcOffloadPenalty r2 bw)"
    if "r1 \<le> r2"
  proof -
    from that have sm: "penalty.speedMultiplier (calcOffloadPenalty r2 bw)
        \<le> penalty.speedMultiplier (calcOffloadPenalty r1 bw)"
      by (rule speedMultiplier_antimono)
    then have "(1 - penalty.speedMultiplier (calcOffloadPenalty r1 bw)) * 100
        \<le> (1 - penalty.speedMultiplier (calcOffloadPenalty r2 bw)) * 100"
      by simp
    then have "penalty.penaltyPercent (calcOffloadPenalty r1 bw) \<le> penalty.penaltyPercent (calcOffloadPenalty r2 bw)"
      unfolding penaltyPercent_from_speedMultiplier [of r1] penaltyPercent_from_speedMultiplier [of r2]
      by (rule Math_round_mono)
    with sm show ?thesis by simp
  qed
  have half: "penalty.speedMultiplier (calcOffloadPenalty r bw) \<ge> 0.5"
    using speedMultiplier_bounds [of r bw] by simp
  then have "(1 - penalty.speedMultiplier (calcOffloadPenalty r bw)) * 100 \<le> 50"
    by simp
  then have "penalty.penaltyPercent (calcOffloadPenalty r bw) \<le> Math_round 50"
    unfolding penaltyPercent_from_speedMultiplier [of r] by (rule Math_round_mono)
  then have cap: "penalty.penaltyPercent (calcOffloadPenalty r bw) \<le> 50"
    by (simp add: Math_round_def)
  have zero: "penalty.penaltyPercent (calcOffloadPenalty 0 bw) = 0
      \<and> penalty.speedMultiplier (calcOffloadPenalty 0 bw) = 1.0"
    by (simp add: calcOffloadPenalty_def)
  from mono half cap zero show ?thesis by simp
qed

theorem calcOffloadPenalty_monotone_capped_witness:
  "(0::rat) \<le> 0.1 \<and> (0.1::rat) \<le> 0.3 \<and> (0.3::rat) \<le> 0.5
   \<and> penalty.penaltyPercent (calcOffloadPenalty 0.1 (Some 500)) = 20
   \<and> penalty.penaltyPercent (calcOffloadPenalty 0.3 (Some 500)) = 32
   \<and> penalty.penaltyPercent (calcOffloadPenalty 0.1 (Some 500))
       \<le> penalty.penaltyPercent (calcOffloadPenalty 0.3 (Some 500))"
  using calcOffloadPenalty_monotone_capped [of "0.1" "0.3" "Some 500" 0]
  by (simp add: calcOffloadPenalty_def Let_def Math_round_def)

section \<open>Sorting keeps the elements\<close>

lemma mset_insert_by: "mset (insert_by cmp x xs) = add_mset x (mset xs)"
  by (induction xs) simp_all

lemma mset_array_sort: "mset (array_sort cmp xs) = mset xs"
  unfolding array_sort_def by (induction xs) (simp_all add: mset_insert_by)

lemma set_array_sort: "set (array_sort cmp xs) = set xs"
  using mset_array_sort [of cmp xs] by (metis set_mset_mset)

lemma length_array_sort: "length (array_sort cmp xs) = length xs"
  using mset_array_sort [of cmp xs] by (metis size_mset)

lemma set_insert_by: "set (insert_by cmp x xs) = insert x (set xs)"
  by (induction xs) auto

lemma sorted_insert_by_key:
  assumes "sorted (map k ys)"
  shows "sorted (map k (insert_by (\<lambda>a b. k a - k b) x ys))"
  using assms by (induction ys) (auto simp: set_insert_by)

lemma sorted_array_sort_key: "sorted (map k (array_sort (\<lambda>a b. k a - k b) xs))"
  unfolding array_sort_def by (induction xs) (simp_all add: sorted_insert_by_key)

section \<open>The fields of an enriched entry\<close>

lemma modelSupportsCtx_enrich:
  "modelSupportsCtx (enrich v bw mc mt rf sb sr m)
   = (case mc of None \<Rightarrow> True | Some c \<Rightarrow> max_context_k m \<ge> c)"
  by (simp add: enrich_def Let_def split_def)

lemma model_enrich: "model (enrich v bw mc mt rf sb sr m) = m"
  by (simp add: enrich_def Let_def split_def)

lemma offloadInfo_enrich_iff:
  "offloadInfo (enrich v bw mc mt rf sb sr m) \<noteq> None
   \<longleftrightarrow> \<not> v \<ge> weight_gb m + kv_per_1k_gb m \<and> sr \<noteq> None
       \<and> (\<exists>p. calcOffloadConfig m v sr = Feasible p \<and> offload_plan.offloadRatio p > 0)"
  by (auto simp: enrich_def Let_def split_def split: offload_config.splits if_splits)



lemma gpuWeightGB_enrich:
  assumes "offloadInfo (enrich v bw mc mt rf sb sr m) = Some oi"
  shows "gpuWeightGB oi = max (v - INFERENCE_OVERHEAD_GB) 0"
  using assms
  by (auto simp: enrich_def Let_def split_def calcOffloadConfig_def
      split: offload_config.splits if_splits option.splits)

lemma maxCtxK_enrich_offload:
  assumes "offloadInfo (enrich v bw mc mt rf sb sr m) = Some oi"
  shows "maxCtxK (enrich v bw mc mt rf sb sr m)
         = (if kv_per_1k_gb m > 0
            then min (Math_floor (max (v - gpuWeightGB oi - INFERENCE_OVERHEAD_GB) 0 / kv_per_1k_gb m))
                   (max_context_k m)
            else max_context_k m)"
  using assms
  by (auto simp: enrich_def Let_def split_def split: offload_config.splits if_splits)

lemma active_offload_vram:
  assumes "calcOffloadConfig m v sr = Feasible p" and "offload_plan.offloadRatio p > 0"
  shows "v - INFERENCE_OVERHEAD_GB > 0 \<and> weight_gb m > 0"
proof -
  from assms have w: "\<not> weight_gb m \<le> v - INFERENCE_OVERHEAD_GB"
    by (auto simp: calcOffloadConfig_def Let_def split: if_splits option.splits)
  from assms w have r: "(weight_gb m - max (v - INFERENCE_OVERHEAD_GB) 0) / weight_gb m \<le> 1 / 2"
    and r0: "(weight_gb m - max (v - INFERENCE_OVERHEAD_GB) 0) / weight_gb m > 0"
    by (auto simp: calcOffloadConfig_def Let_def MAX_OFFLOAD_RATIO_def split: if_splits option.splits)
  show ?thesis
  proof (cases "v - INFERENCE_OVERHEAD_GB > 0")
    case True
    with w show ?thesis by simp
  next
    case False
    then have "max (v - INFERENCE_OVERHEAD_GB) 0 = 0" by simp
    with r r0 have "weight_gb m / weight_gb m \<le> 1 / 2" "weight_gb m / weight_gb m > 0" by simp_all
    then show ?thesis by (cases "weight_gb m = 0") simp_all
  qed
qed

lemma medium_offload_8_32:
  "calcOffloadConfig mediumModel 8 (Some 32)
   = Feasible \<lparr>offload_plan.gpuWeightGB = 7, offload_plan.ramWeightGB = 1.99,
       offload_plan.offloadRatio = 199 / 899, offload_plan.estimatedLayers = 0\<rparr>"
  by (simp add: calcOffloadConfig_def mediumModel_def Let_def INFERENCE_OVERHEAD_GB_def
      MAX_OFFLOAD_RATIO_def Math_round_def)

section \<open>Where the loop puts an entry\<close>

lemma mset_foldl_place:
  "mset (fits (foldl place b es)) + mset (tight (foldl place b es)) + mset (noFit (foldl place b es))
   = mset (fits b) + mset (tight b) + mset (noFit b) + mset es"
  by (induction es arbitrary: b) (simp_all add: place_def)

lemma noFit_foldl_place:
  "set (noFit (foldl place b es))
   = set (noFit b) \<union> {e \<in> set es. \<not> fitsAtAll e \<or> \<not> modelSupportsCtx e}"
  by (induction es arbitrary: b) (auto simp: place_def)

lemma tight_foldl_place:
  "set (tight (foldl place b es))
   = set (tight b) \<union> {e \<in> set es. fitsAtAll e \<and> modelSupportsCtx e
        \<and> (offloadInfo e \<noteq> None \<or> \<not> meetsMinCtx e \<or> \<not> meetsMinSpeed e \<or> \<not> meetsFeatures e
             \<or> maxCtxK e < TIGHT_FIT_CONTEXT_K)}"
  by (induction es arbitrary: b) (auto simp: place_def)

lemma fits_foldl_place:
  "set (fits (foldl place b es))
   = set (fits b) \<union> {e \<in> set es. fitsAtAll e \<and> modelSupportsCtx e
        \<and> offloadInfo e = None \<and> meetsMinCtx e \<and> meetsMinSpeed e \<and> meetsFeatures e
        \<and> \<not> maxCtxK e < TIGHT_FIT_CONTEXT_K}"
  by (induction es arbitrary: b) (auto simp: place_def)

lemma set_noFit_bucketModels:
  "set (noFit (bucketModels ms v bw mc mt rf sb sr))
   = {e \<in> enrich v bw mc mt rf sb sr ` set ms. \<not> fitsAtAll e \<or> \<not> modelSupportsCtx e}"
  by (simp add: bucketModels_def Let_def set_array_sort noFit_foldl_place)

lemma set_tight_bucketModels:
  "set (tight (bucketModels ms v bw mc mt rf sb sr))
   = {e \<in> enrich v bw mc mt rf sb sr ` set ms. fitsAtAll e \<and> modelSupportsCtx e
        \<and> (offloadInfo e \<noteq> None \<or> \<not> meetsMinCtx e \<or> \<not> meetsMinSpeed e \<or> \<not> meetsFeatures e
             \<or> maxCtxK e < TIGHT_FIT_CONTEXT_K)}"
  by (simp add: bucketModels_def Let_def set_array_sort tight_foldl_place)

lemma set_fits_bucketModels:
  "set (fits (bucketModels ms v bw mc mt rf sb sr))
   = {e \<in> enrich v bw mc mt rf sb sr ` set ms. fitsAtAll e \<and> modelSupportsCtx e
        \<and> offloadInfo e = None \<and> meetsMinCtx e \<and> meetsMinSpeed e \<and> meetsFeatures e
        \<and> \<not> maxCtxK e < TIGHT_FIT_CONTEXT_K}"
  by (simp add: bucketModels_def Let_def set_array_sort fits_foldl_place)

lemma mset_bucketModels:
  "mset (fits (bucketModels ms v bw mc mt rf sb sr))
   + mset (tight (bucketModels ms v bw mc mt rf sb sr))
   + mset (noFit (bucketModels ms v bw mc mt rf sb sr))
   = mset (map (enrich v bw mc mt rf sb sr) ms)"
proof -
  have "mset (fits (foldl place \<lparr>fits = [], tight = [], noFit = []\<rparr> es))
        + mset (tight (foldl place \<lparr>fits = [], tight = [], noFit = []\<rparr> es))
        + mset (noFit (foldl place \<lparr>fits = [], tight = [], noFit = []\<rparr> es)) = mset es" for es
    by (simp add: mset_foldl_place)
  then show ?thesis
    by (simp add: bucketModels_def Let_def mset_array_sort)
qed

section \<open>The buckets\<close>

text \<open>
  Claim C5. With a minimum context \<open>c\<close> requested, every model of the catalog whose
  \<open>max_context_k\<close> is below \<open>c\<close> has its entry in \<open>noFit\<close>, and in no other bucket,
  whatever the VRAM, the bandwidth, the system RAM and the other filters are.
\<close>

theorem bucketModels_unsupported_context_noFit:
  assumes "m \<in> set ms" and "max_context_k m < c"
  shows "enrich v bw (Some c) mt rf sb sr m \<in> set (noFit (bucketModels ms v bw (Some c) mt rf sb sr))
       \<and> enrich v bw (Some c) mt rf sb sr m \<notin> set (fits (bucketModels ms v bw (Some c) mt rf sb sr))
       \<and> enrich v bw (Some c) mt rf sb sr m \<notin> set (tight (bucketModels ms v bw (Some c) mt rf sb sr))"
proof -
  from assms(2) have "\<not> modelSupportsCtx (enrich v bw (Some c) mt rf sb sr m)"
    by (simp add: modelSupportsCtx_enrich)
  with assms(1) show ?thesis
    by (simp add: set_noFit_bucketModels set_fits_bucketModels set_tight_bucketModels)
qed

theorem bucketModels_unsupported_context_noFit_witness:
  "mediumModel \<in> set [mediumModel] \<and> max_context_k mediumModel < 256
   \<and> enrich 24 (Some 504) (Some 256) None [] ''mmlu'' (Some 32) mediumModel
       \<in> set (noFit (bucketModels [mediumModel] 24 (Some 504) (Some 256) None [] ''mmlu'' (Some 32)))
   \<and> fits (bucketModels [mediumModel] 24 (Some 504) (Some 256) None [] ''mmlu'' (Some 32)) = []"
  using bucketModels_unsupported_context_noFit
    [of mediumModel "[mediumModel]" 256 24 "Some 504" None "[]" "''mmlu''" "Some 32"]
  by (simp add: mediumModel_def bucketModels_def Let_def place_def modelSupportsCtx_enrich
      array_sort_def)








text \<open>
  Claim C9. When \<open>bucketModels\<close> attaches an offload plan to a model with
  \<open>kv_per_1k_gb > 0\<close>, the plan has \<open>gpuWeightGB = vram - 1.0\<close>, so no VRAM is left for
  the KV cache after the weights on the GPU and the 1.0 GB of overhead, and the entry's
  \<open>maxCtxK\<close> is \<open>min 0 max_context_k\<close>: it is 0 for every model of the data model, whose
  \<open>max_context_k\<close> is positive.
\<close>

theorem bucketModels_offload_context_zero:
  assumes "kv_per_1k_gb m > 0" and "offloadInfo (enrich v bw mc mt rf sb sr m) = Some oi"
  shows "gpuWeightGB oi = v - 1.0
       \<and> max (v - gpuWeightGB oi - INFERENCE_OVERHEAD_GB) 0 = 0
       \<and> maxCtxK (enrich v bw mc mt rf sb sr m) = min 0 (max_context_k m)
       \<and> (0 \<le> max_context_k m \<longrightarrow> maxCtxK (enrich v bw mc mt rf sb sr m) = 0)"
proof -
  from assms(2) obtain p where "calcOffloadConfig m v sr = Feasible p"
    and "offload_plan.offloadRatio p > 0"
    using offloadInfo_enrich_iff [of v bw mc mt rf sb sr m] by auto
  then have "v - INFERENCE_OVERHEAD_GB > 0"
    using active_offload_vram by blast
  with gpuWeightGB_enrich [OF assms(2)] have gpu: "gpuWeightGB oi = v - INFERENCE_OVERHEAD_GB"
    by simp
  then have rest: "max (v - gpuWeightGB oi - INFERENCE_OVERHEAD_GB) 0 = 0"
    by simp
  from assms(1) have ctx: "maxCtxK (enrich v bw mc mt rf sb sr m) = min 0 (max_context_k m)"
    by (simp add: maxCtxK_enrich_offload [OF assms(2)] rest Math_floor_def)
  from gpu rest ctx show ?thesis
    by (simp add: INFERENCE_OVERHEAD_GB_def)
qed

theorem bucketModels_offload_context_zero_witness:
  "kv_per_1k_gb mediumModel > 0
   \<and> offloadInfo (enrich 8 (Some 504) None None [] ''mmlu'' (Some 32) mediumModel) \<noteq> None
   \<and> 0 \<le> max_context_k mediumModel
   \<and> maxCtxK (enrich 8 (Some 504) None None [] ''mmlu'' (Some 32) mediumModel) = 0"
proof -
  have kv: "kv_per_1k_gb mediumModel > 0" and cap: "0 \<le> max_context_k mediumModel"
    by (simp_all add: mediumModel_def)
  have active: "offloadInfo (enrich 8 (Some 504) None None [] ''mmlu'' (Some 32) mediumModel) \<noteq> None"
    unfolding offloadInfo_enrich_iff medium_offload_8_32 by (simp add: mediumModel_def)
  then obtain oi
    where "offloadInfo (enrich 8 (Some 504) None None [] ''mmlu'' (Some 32) mediumModel) = Some oi"
    by blast
  from bucketModels_offload_context_zero [OF kv this] cap
  have "maxCtxK (enrich 8 (Some 504) None None [] ''mmlu'' (Some 32) mediumModel) = 0"
    by blast
  with kv active cap show ?thesis by simp
qed

text \<open>
  Claim C10. \<open>bucketModels\<close> partitions the catalog: the entries of the three buckets
  together are the enriched entries of the models, one for each model, each as often as
  it occurs; the three lengths add up to the length of the catalog; and no entry is in
  two buckets.
\<close>

theorem bucketModels_partition:
  "mset (fits (bucketModels ms v bw mc mt rf sb sr))
     + mset (tight (bucketModels ms v bw mc mt rf sb sr))
     + mset (noFit (bucketModels ms v bw mc mt rf sb sr))
   = mset (map (enrich v bw mc mt rf sb sr) ms)
   \<and> map model (map (enrich v bw mc mt rf sb sr) ms) = ms
   \<and> length (fits (bucketModels ms v bw mc mt rf sb sr))
     + length (tight (bucketModels ms v bw mc mt rf sb sr))
     + length (noFit (bucketModels ms v bw mc mt rf sb sr)) = length ms
   \<and> set (fits (bucketModels ms v bw mc mt rf sb sr))
       \<inter> set (tight (bucketModels ms v bw mc mt rf sb sr)) = {}
   \<and> set (fits (bucketModels ms v bw mc mt rf sb sr))
       \<inter> set (noFit (bucketModels ms v bw mc mt rf sb sr)) = {}
   \<and> set (tight (bucketModels ms v bw mc mt rf sb sr))
       \<inter> set (noFit (bucketModels ms v bw mc mt rf sb sr)) = {}"
proof -
  let ?b = "bucketModels ms v bw mc mt rf sb sr"
  have parts: "mset (fits ?b) + mset (tight ?b) + mset (noFit ?b)
      = mset (map (enrich v bw mc mt rf sb sr) ms)"
    by (rule mset_bucketModels)
  have models: "map model (map (enrich v bw mc mt rf sb sr) ms) = ms"
    by (simp add: model_enrich comp_def)
  have "size (mset (fits ?b) + mset (tight ?b) + mset (noFit ?b))
      = size (mset (map (enrich v bw mc mt rf sb sr) ms))"
    by (simp only: parts)
  then have len: "length (fits ?b) + length (tight ?b) + length (noFit ?b) = length ms"
    by simp
  have ft: "set (fits ?b) \<inter> set (tight ?b) = {}"
    unfolding set_fits_bucketModels set_tight_bucketModels by blast
  have fn: "set (fits ?b) \<inter> set (noFit ?b) = {}"
    unfolding set_fits_bucketModels set_noFit_bucketModels by blast
  have tn: "set (tight ?b) \<inter> set (noFit ?b) = {}"
    unfolding set_tight_bucketModels set_noFit_bucketModels by blast
  from parts models len ft fn tn show ?thesis
    by (intro conjI)
qed

section \<open>The loop of groupVariants\<close>

lemma mset_concat_update:
  assumes "i < length xs"
  shows "mset (concat (map f (xs[i := y]))) + mset (f (xs ! i))
         = mset (concat (map f xs)) + mset (f y)"
  using assms
proof (induction xs arbitrary: i)
  case Nil
  then show ?case by simp
next
  case (Cons x xs)
  then show ?case by (cases i) simp_all
qed

lemma first_names_snoc:
  "rev (remdups (rev (xs @ [x])))
   = (if x \<in> set xs then rev (remdups (rev xs)) else rev (remdups (rev xs)) @ [x])"
  by simp

lemma groups_inv_empty: "groups_inv [] ([], Map.empty)"
  by (simp add: groups_inv_def)

lemma groups_inv_step:
  assumes "groups_inv ms st"
  shows "groups_inv (ms @ [m]) (add_variant st m)"
proof -
  obtain gs seen where st: "st = (gs, seen)" by (cases st)
  let ?n = "model.name (model m)"
  from assms have inv:
    "map group.name gs = rev (remdups (rev (map (\<lambda>m. model.name (model m)) ms)))
     \<and> (\<forall>i < length gs. seen (group.name (gs ! i)) = Some i)
     \<and> (\<forall>n. n \<notin> set (map group.name gs) \<longrightarrow> seen n = None)
     \<and> (\<forall>i < length gs.
          variants (gs ! i) = filter (\<lambda>m. model.name (model m) = group.name (gs ! i)) ms)
     \<and> (\<forall>i < length gs.
          variants (gs ! i) \<noteq> []
          \<and> group.params_b (gs ! i) = model.params_b (model (hd (variants (gs ! i))))
          \<and> group.tier (gs ! i) = entry.tier (hd (variants (gs ! i)))
          \<and> group.mmlu_score (gs ! i) = model.mmlu_score (model (hd (variants (gs ! i))))
          \<and> group.swe_bench_score (gs ! i)
              = model.swe_bench_score (model (hd (variants (gs ! i))))
          \<and> group.features (gs ! i)
              = (case model.features (model (hd (variants (gs ! i)))) of
                   None \<Rightarrow> [] | Some fs \<Rightarrow> fs))
     \<and> mset (concat (map variants gs)) = mset ms"
    unfolding groups_inv_def st prod.case .
  from inv have F: "mset (concat (map variants gs)) = mset ms"
    by blast
  from inv have A: "map group.name gs = rev (remdups (rev (map (\<lambda>m. model.name (model m)) ms)))"
    by blast
  from inv have B: "seen (group.name (gs ! i)) = Some i" if "i < length gs" for i
    using that by blast
  from inv have C: "seen n = None" if "n \<notin> set (map group.name gs)" for n
    using that by blast
  from inv have D: "variants (gs ! i)
      = filter (\<lambda>m. model.name (model m) = group.name (gs ! i)) ms" if "i < length gs" for i
    using that by blast
  from inv have E: "variants (gs ! i) \<noteq> []
      \<and> group.params_b (gs ! i) = model.params_b (model (hd (variants (gs ! i))))
      \<and> group.tier (gs ! i) = entry.tier (hd (variants (gs ! i)))
      \<and> group.mmlu_score (gs ! i) = model.mmlu_score (model (hd (variants (gs ! i))))
      \<and> group.swe_bench_score (gs ! i)
          = model.swe_bench_score (model (hd (variants (gs ! i))))
      \<and> group.features (gs ! i)
          = (case model.features (model (hd (variants (gs ! i)))) of
               None \<Rightarrow> [] | Some fs \<Rightarrow> fs)" if "i < length gs" for i
    using that by blast
  from A have names: "set (map group.name gs) = set (map (\<lambda>m. model.name (model m)) ms)"
    by simp
  show ?thesis
  proof (cases "seen ?n")
    case None
    let ?gs' = "gs @ [\<lparr>group.name = ?n,
                        group.params_b = model.params_b (model m),
                        group.tier = entry.tier m,
                        group.mmlu_score = model.mmlu_score (model m),
                        group.swe_bench_score = model.swe_bench_score (model m),
                        group.features =
                          (case model.features (model m) of None \<Rightarrow> [] | Some fs \<Rightarrow> fs),
                        variants = [m]\<rparr>]"
    let ?seen' = "seen(?n \<mapsto> length gs)"
    have step: "add_variant st m = (?gs', ?seen')"
      by (simp add: st add_variant_def None)
    have fresh: "?n \<notin> set (map group.name gs)"
    proof
      assume "?n \<in> set (map group.name gs)"
      then obtain j where "j < length gs" and "group.name (gs ! j) = ?n"
        by (auto simp: in_set_conv_nth)
      with B [of j] None show False by simp
    qed
    have other: "group.name (gs ! i) \<noteq> ?n" if "i < length gs" for i
    proof
      assume "group.name (gs ! i) = ?n"
      moreover from that have "gs ! i \<in> set gs" by (rule nth_mem)
      ultimately have "?n \<in> group.name ` set gs" by (metis imageI)
      with fresh show False by simp
    qed
    from fresh names have notin: "?n \<notin> set (map (\<lambda>m. model.name (model m)) ms)"
      by simp
    have "model.name (model x) \<noteq> ?n" if "x \<in> set ms" for x
    proof
      assume "model.name (model x) = ?n"
      with that have "?n \<in> (\<lambda>m. model.name (model m)) ` set ms" by (metis imageI)
      with notin show False by simp
    qed
    then have none: "filter (\<lambda>m'. model.name (model m') = ?n) ms = []"
      by (simp add: filter_empty_conv)
    have g1: "map group.name ?gs' = rev (remdups (rev (map (\<lambda>m. model.name (model m)) (ms @ [m]))))"
      using A notin by simp
    have g2: "(\<forall>i < length ?gs'. ?seen' (group.name (?gs' ! i)) = Some i)"
      using B other other [THEN not_sym] by (auto simp: nth_append less_Suc_eq)
    have g3: "(\<forall>n. n \<notin> set (map group.name ?gs') \<longrightarrow> ?seen' n = None)"
      using C by simp
    have g4: "(\<forall>i < length ?gs'.
          variants (?gs' ! i) = filter (\<lambda>m. model.name (model m) = group.name (?gs' ! i)) (ms @ [m]))"
      using D other other [THEN not_sym] none by (auto simp: nth_append less_Suc_eq)
    have g5: "(\<forall>i < length ?gs'.
          variants (?gs' ! i) \<noteq> []
          \<and> group.params_b (?gs' ! i) = model.params_b (model (hd (variants (?gs' ! i))))
          \<and> group.tier (?gs' ! i) = entry.tier (hd (variants (?gs' ! i)))
          \<and> group.mmlu_score (?gs' ! i) = model.mmlu_score (model (hd (variants (?gs' ! i))))
          \<and> group.swe_bench_score (?gs' ! i)
              = model.swe_bench_score (model (hd (variants (?gs' ! i))))
          \<and> group.features (?gs' ! i)
              = (case model.features (model (hd (variants (?gs' ! i)))) of
                   None \<Rightarrow> [] | Some fs \<Rightarrow> fs))"
      using E by (auto simp: nth_append less_Suc_eq)
    have g6: "mset (concat (map variants ?gs')) = mset (ms @ [m])"
      using F by simp
    show ?thesis
      unfolding step groups_inv_def prod.case using g1 g2 g3 g4 g5 g6 by blast
  next
    case (Some i)
    let ?g = "(gs ! i)\<lparr>variants := variants (gs ! i) @ [m]\<rparr>"
    let ?gs' = "gs[i := ?g]"
    let ?seen' = "seen"
    have step: "add_variant st m = (?gs', ?seen')"
      by (simp add: st add_variant_def Some)
    have known: "?n \<in> set (map group.name gs)"
      using C [of ?n] Some by auto
    then obtain j where j: "j < length gs" "group.name (gs ! j) = ?n"
      by (auto simp: in_set_conv_nth)
    with B [of j] Some have ij: "i = j" by simp
    with j have i: "i < length gs" "group.name (gs ! i) = ?n" by simp_all
    have other: "group.name (gs ! k) \<noteq> ?n" if "k < length gs" "k \<noteq> i" for k
    proof
      assume "group.name (gs ! k) = ?n"
      with B [of k] that(1) Some have "k = i" by simp
      with that(2) show False by simp
    qed
    from known names have isin: "?n \<in> set (map (\<lambda>m. model.name (model m)) ms)"
      by simp
    have same_names: "map group.name ?gs' = map group.name gs"
      by (simp add: map_update list_update_same_conv i)
    have nth: "group.name (?gs' ! k) = group.name (gs ! k)" if "k < length gs" for k
      using that i by (cases "k = i") simp_all
    have g1: "map group.name ?gs' = rev (remdups (rev (map (\<lambda>m. model.name (model m)) (ms @ [m]))))"
      using A isin same_names by simp
    have g2: "(\<forall>i < length ?gs'. ?seen' (group.name (?gs' ! i)) = Some i)"
      using B nth by simp
    have g3: "(\<forall>n. n \<notin> set (map group.name ?gs') \<longrightarrow> ?seen' n = None)"
      using C same_names by simp
    have g4: "(\<forall>i < length ?gs'.
          variants (?gs' ! i) = filter (\<lambda>m. model.name (model m) = group.name (?gs' ! i)) (ms @ [m]))"
      using D i other other [THEN not_sym] by (auto simp: nth_list_update)
    have g5: "(\<forall>i < length ?gs'.
          variants (?gs' ! i) \<noteq> []
          \<and> group.params_b (?gs' ! i) = model.params_b (model (hd (variants (?gs' ! i))))
          \<and> group.tier (?gs' ! i) = entry.tier (hd (variants (?gs' ! i)))
          \<and> group.mmlu_score (?gs' ! i) = model.mmlu_score (model (hd (variants (?gs' ! i))))
          \<and> group.swe_bench_score (?gs' ! i)
              = model.swe_bench_score (model (hd (variants (?gs' ! i))))
          \<and> group.features (?gs' ! i)
              = (case model.features (model (hd (variants (?gs' ! i)))) of
                   None \<Rightarrow> [] | Some fs \<Rightarrow> fs))"
      using E i by (auto simp: nth_list_update)
    have g6: "mset (concat (map variants ?gs')) = mset (ms @ [m])"
      using F mset_concat_update [of i gs variants ?g] i by simp
    show ?thesis
      unfolding step groups_inv_def prod.case using g1 g2 g3 g4 g5 g6 by blast
  qed
qed

lemma groups_inv_foldl: "groups_inv ms (foldl add_variant ([], Map.empty) ms)"
  by (induction ms rule: rev_induct) (simp_all add: groups_inv_empty groups_inv_step)

lemma find_hd_filter:
  assumes "filter P xs \<noteq> []"
  shows "List.find P xs = Some (hd (filter P xs))"
  using assms by (induction xs) auto

lemma mset_concat_sorted_variants:
  "mset (concat (map variants (map (\<lambda>g. g\<lparr>variants := array_sort cmp (variants g)\<rparr>) gs)))
   = mset (concat (map variants gs))"
  by (induction gs) (simp_all add: mset_array_sort)

section \<open>The groups\<close>

text \<open>
  Claim C8. \<open>groupVariants\<close> returns the groups in the order of first appearance of their
  names (\<open>rev (remdups (rev ns))\<close> keeps the first occurrence of each name of \<open>ns\<close>, in
  order: by \<open>first_names_snoc\<close> a name is appended when it is new). No entry is dropped
  or duplicated: the variants of all groups together are the entries of the input, and
  their lengths add up to the length of the input. Each group has its \<open>params_b\<close>,
  \<open>tier\<close>, \<open>mmlu_score\<close>, \<open>swe_bench_score\<close> and \<open>features\<close> from the first entry of
  its name in the input, holds the entries of its name, and has them in ascending order of
  \<open>weight_gb\<close>.
\<close>

theorem groupVariants_spec:
  "map group.name (groupVariants ms) = rev (remdups (rev (map (\<lambda>m. model.name (model m)) ms)))
   \<and> mset (concat (map variants (groupVariants ms))) = mset ms
   \<and> sum_list (map (\<lambda>g. length (variants g)) (groupVariants ms)) = length ms
   \<and> (\<forall>g \<in> set (groupVariants ms).
         (\<exists>f. List.find (\<lambda>m. model.name (model m) = group.name g) ms = Some f
              \<and> group.params_b g = model.params_b (model f)
              \<and> group.tier g = entry.tier f
              \<and> group.mmlu_score g = model.mmlu_score (model f)
              \<and> group.swe_bench_score g = model.swe_bench_score (model f)
              \<and> group.features g
                  = (case model.features (model f) of None \<Rightarrow> [] | Some fs \<Rightarrow> fs))
         \<and> mset (variants g) = mset (filter (\<lambda>m. model.name (model m) = group.name g) ms)
         \<and> sorted (map (\<lambda>e. weight_gb (model e)) (variants g)))"
proof -
  obtain gs seen where run: "foldl add_variant ([], Map.empty) ms = (gs, seen)"
    by (cases "foldl add_variant ([], Map.empty) ms")
  let ?sortv = "\<lambda>g. g\<lparr>variants :=
      array_sort (\<lambda>a b. weight_gb (model a) - weight_gb (model b)) (variants g)\<rparr>"
  have res: "groupVariants ms = map ?sortv gs"
    by (simp add: groupVariants_def run)
  from groups_inv_foldl [of ms] have inv: "groups_inv ms (gs, seen)"
    by (simp add: run)
  from inv have A: "map group.name gs = rev (remdups (rev (map (\<lambda>m. model.name (model m)) ms)))"
    unfolding groups_inv_def prod.case by blast
  from inv have D: "variants (gs ! i)
      = filter (\<lambda>m. model.name (model m) = group.name (gs ! i)) ms" if "i < length gs" for i
    unfolding groups_inv_def prod.case using that by blast
  from inv have E: "variants (gs ! i) \<noteq> []
      \<and> group.params_b (gs ! i) = model.params_b (model (hd (variants (gs ! i))))
      \<and> group.tier (gs ! i) = entry.tier (hd (variants (gs ! i)))
      \<and> group.mmlu_score (gs ! i) = model.mmlu_score (model (hd (variants (gs ! i))))
      \<and> group.swe_bench_score (gs ! i)
          = model.swe_bench_score (model (hd (variants (gs ! i))))
      \<and> group.features (gs ! i)
          = (case model.features (model (hd (variants (gs ! i)))) of
               None \<Rightarrow> [] | Some fs \<Rightarrow> fs)" if "i < length gs" for i
    unfolding groups_inv_def prod.case using that by blast
  from inv have F: "mset (concat (map variants gs)) = mset ms"
    unfolding groups_inv_def prod.case by blast
  have order: "map group.name (groupVariants ms)
      = rev (remdups (rev (map (\<lambda>m. model.name (model m)) ms)))"
    by (simp add: res A [symmetric] comp_def)
  have all: "mset (concat (map variants (groupVariants ms))) = mset ms"
    unfolding res mset_concat_sorted_variants by (rule F)
  have "size (mset (concat (map variants (groupVariants ms)))) = size (mset ms)"
    by (simp only: all)
  then have count: "sum_list (map (\<lambda>g. length (variants g)) (groupVariants ms)) = length ms"
    by (simp add: length_concat comp_def)
  have each: "(\<exists>f. List.find (\<lambda>m. model.name (model m) = group.name g) ms = Some f
              \<and> group.params_b g = model.params_b (model f)
              \<and> group.tier g = entry.tier f
              \<and> group.mmlu_score g = model.mmlu_score (model f)
              \<and> group.swe_bench_score g = model.swe_bench_score (model f)
              \<and> group.features g
                  = (case model.features (model f) of None \<Rightarrow> [] | Some fs \<Rightarrow> fs))
         \<and> mset (variants g) = mset (filter (\<lambda>m. model.name (model m) = group.name g) ms)
         \<and> sorted (map (\<lambda>e. weight_gb (model e)) (variants g))"
    if "g \<in> set (groupVariants ms)" for g
  proof -
    from that obtain i where i: "i < length gs" and g: "g = ?sortv (gs ! i)"
      unfolding res by (auto simp: in_set_conv_nth)
    let ?P = "\<lambda>m. model.name (model m) = group.name (gs ! i)"
    from D [OF i] E [OF i] have ne: "filter ?P ms \<noteq> []" by simp
    then have found: "List.find ?P ms = Some (hd (filter ?P ms))"
      by (rule find_hd_filter)
    have meta: "\<exists>f. List.find (\<lambda>m. model.name (model m) = group.name g) ms = Some f
              \<and> group.params_b g = model.params_b (model f)
              \<and> group.tier g = entry.tier f
              \<and> group.mmlu_score g = model.mmlu_score (model f)
              \<and> group.swe_bench_score g = model.swe_bench_score (model f)
              \<and> group.features g
                  = (case model.features (model f) of None \<Rightarrow> [] | Some fs \<Rightarrow> fs)"
      using found E [OF i] D [OF i] by (simp add: g)
    have same: "mset (variants g)
        = mset (filter (\<lambda>m. model.name (model m) = group.name g) ms)"
      using D [OF i] by (simp add: g mset_array_sort)
    have asc: "sorted (map (\<lambda>e. weight_gb (model e)) (variants g))"
      by (simp add: g sorted_array_sort_key)
    from meta same asc show ?thesis by (intro conjI)
  qed
  from order all count each show ?thesis by blast
qed

theorem groupVariants_spec_witness:
  "map group.name (groupVariants exampleEntries) = [''Better Model'', ''Worse Model'']
   \<and> map (\<lambda>g. map (\<lambda>e. quantization (model e)) (variants g)) (groupVariants exampleEntries)
       = [[''Q4_K_M'', ''Q8_0''], [''Q8_0'']]
   \<and> hd (groupVariants exampleEntries) \<in> set (groupVariants exampleEntries)
   \<and> sorted (map (\<lambda>e. weight_gb (model e)) (variants (hd (groupVariants exampleEntries))))
   \<and> mset (variants (hd (groupVariants exampleEntries)))
       = {#makeEntry ''Better Model'' ''Q8_0'' 5, makeEntry ''Better Model'' ''Q4_K_M'' 3#}
   \<and> sum_list (map (\<lambda>g. length (variants g)) (groupVariants exampleEntries)) = 3"
proof -
  have run: "map group.name (groupVariants exampleEntries) = [''Better Model'', ''Worse Model'']
      \<and> map (\<lambda>g. map (\<lambda>e. quantization (model e)) (variants g)) (groupVariants exampleEntries)
          = [[''Q4_K_M'', ''Q8_0''], [''Q8_0'']]"
    by (simp add: groupVariants_def exampleEntries_def makeEntry_def add_variant_def array_sort_def)
  then have first: "hd (groupVariants exampleEntries) \<in> set (groupVariants exampleEntries)"
    and name: "group.name (hd (groupVariants exampleEntries)) = ''Better Model''"
    by (cases "groupVariants exampleEntries"; simp)+
  from groupVariants_spec [of exampleEntries] first
  have "sorted (map (\<lambda>e. weight_gb (model e)) (variants (hd (groupVariants exampleEntries))))
        \<and> mset (variants (hd (groupVariants exampleEntries)))
            = mset (filter (\<lambda>m. model.name (model m)
                             = group.name (hd (groupVariants exampleEntries))) exampleEntries)
        \<and> sum_list (map (\<lambda>g. length (variants g)) (groupVariants exampleEntries))
            = length exampleEntries"
    by blast
  with run first show ?thesis
    by (simp add: name) (simp add: exampleEntries_def makeEntry_def)
qed

end
